theory Spec2Isabelle
  imports Main
begin

section \<open>The collaborators of the middleware\<close>

text \<open>
  \<^verbatim>\<open>starlette_prometheus/middleware.py\<close> defines one class, \<^verbatim>\<open>PrometheusMiddleware\<close>,
  with a constructor and three methods. Everything else it touches belongs to Starlette
  (requests, responses, routes), to \<^verbatim>\<open>prometheus_client\<close> (counters, gauges, histograms)
  or to the standard library (\<^verbatim>\<open>time.perf_counter\<close>, exceptions). Those collaborators are
  modelled by the interface the middleware uses and by nothing more.
\<close>

subsection \<open>Routes and requests\<close>

text \<open>\<^verbatim>\<open>starlette.routing.Match\<close>, the result of \<^verbatim>\<open>route.matches(scope)\<close>.\<close>

datatype Match = NONE | PARTIAL | FULL

text \<open>The part of the ASGI scope a route looks at.\<close>

record scope =
  scope_method :: string
  scope_path :: string

text \<open>
  A route is its pattern string \<^verbatim>\<open>route.path\<close> and its matcher \<^verbatim>\<open>route.matches\<close>, which
  returns the kind of match and a child scope (the path parameters).
\<close>

record route =
  route_path :: string
  route_matches :: "scope \<Rightarrow> Match \<times> (string \<times> string) list"

text \<open>
  The accessors of a request that the middleware reads: \<^verbatim>\<open>request.method\<close>,
  \<^verbatim>\<open>request.url.path\<close>, \<^verbatim>\<open>request.scope\<close> and \<^verbatim>\<open>request.app.routes\<close>.
\<close>

record request =
  req_method :: string
  url_path :: string
  req_scope :: scope
  app_routes :: "route list"

record response =
  status_code :: int
  headers :: "(string \<times> string) list"
  body :: string

subsection \<open>Exceptions\<close>

text \<open>
  A raised exception: the name of its concrete class (\<^verbatim>\<open>type(e).__name__\<close>), whether the
  class derives from \<^verbatim>\<open>Exception\<close> (\<^verbatim>\<open>KeyboardInterrupt\<close>, \<^verbatim>\<open>SystemExit\<close> and, since
  Python 3.8, \<^verbatim>\<open>asyncio.CancelledError\<close> derive from \<^verbatim>\<open>BaseException\<close> only), its
  arguments, and the chaining attributes \<^verbatim>\<open>__cause__\<close>, \<^verbatim>\<open>__context__\<close> and
  \<^verbatim>\<open>__suppress_context__\<close>.
\<close>

datatype exc = Exc
  (type_name: string)
  (is_Exception: bool)
  (args: "string list")
  (cause: "exc option")
  (exc_context: "exc option")
  (suppress_context: bool)

text \<open>
  \<^verbatim>\<open>raise e from None\<close> raises the object \<^verbatim>\<open>e\<close> itself after setting its
  \<^verbatim>\<open>__cause__\<close> to \<^verbatim>\<open>None\<close> and its \<^verbatim>\<open>__suppress_context__\<close> to \<^verbatim>\<open>True\<close>. Inside the
  handler of \<^verbatim>\<open>e\<close> the exception being handled is \<^verbatim>\<open>e\<close> itself, so \<^verbatim>\<open>__context__\<close> is
  left as it is.
\<close>

fun raise_from_None :: "exc \<Rightarrow> exc" where
  "raise_from_None (Exc n b a c x s) = Exc n b a None x True"

subsection \<open>The metrics registry\<close>

datatype metric_kind = Counter | Gauge | Histogram

text \<open>A metric as its constructor call gives it: kind, name, documentation, label names.\<close>

record metric =
  kind :: metric_kind
  metric_name :: string
  documentation :: string
  labelnames :: "string list"

text \<open>
  The values passed as labels: strings, and the integer \<^verbatim>\<open>response.status_code\<close>, which
  the middleware hands over as it is. The keyword arguments of \<^verbatim>\<open>labels(...)\<close> are an
  association list in the order the source writes them.
\<close>

datatype label_value = S string | I int

type_synonym labelset = "(string \<times> label_value) list"

text \<open>\<^verbatim>\<open>metric.labels(**kw)\<close>: the child time series, named by the metric and the labels.\<close>

type_synonym child = "string \<times> labelset"

definition labels :: "metric \<Rightarrow> labelset \<Rightarrow> child" where
  "labels m kw = (metric_name m, kw)"

text \<open>
  The samples held by the registry. A child that was never asked for has no sample
  (\<open>None\<close>) and does not show in the exposition; asking for it creates it at zero.
  A counter's sample counts, a gauge's goes up and down, a histogram's is the sequence of
  the observed values. The type \<open>'t\<close> is the type of clock readings.
\<close>

record 't registry =
  counters :: "child \<rightharpoonup> nat"
  gauges :: "child \<rightharpoonup> int"
  histograms :: "child \<rightharpoonup> 't list"

definition empty_registry :: "'t registry" where
  "empty_registry = \<lparr>counters = Map.empty, gauges = Map.empty, histograms = Map.empty\<rparr>"

definition counter_value :: "'t registry \<Rightarrow> child \<Rightarrow> nat" where
  "counter_value r c = (case counters r c of None \<Rightarrow> 0 | Some n \<Rightarrow> n)"

definition gauge_value :: "'t registry \<Rightarrow> child \<Rightarrow> int" where
  "gauge_value r c = (case gauges r c of None \<Rightarrow> 0 | Some n \<Rightarrow> n)"

definition observations :: "'t registry \<Rightarrow> child \<Rightarrow> 't list" where
  "observations r c = (case histograms r c of None \<Rightarrow> [] | Some xs \<Rightarrow> xs)"

subsection \<open>The world one call of the middleware runs in\<close>

text \<open>
  The calls the middleware makes on its collaborators, in program order: on a counter
  (\<^verbatim>\<open>inc\<close>), a gauge (\<^verbatim>\<open>inc\<close>, \<^verbatim>\<open>dec\<close>), a histogram (\<^verbatim>\<open>observe\<close>), the clock
  (\<^verbatim>\<open>time.perf_counter()\<close>) and the downstream handler (\<^verbatim>\<open>await call_next(request)\<close>).
\<close>

datatype 't call =
    CounterInc child
  | GaugeInc child
  | GaugeDec child
  | Observe child 't
  | PerfCounter
  | CallNext request

text \<open>
  The state: the registry's samples, the reading \<^verbatim>\<open>time.perf_counter()\<close> would give now,
  and the log of the calls made so far.
\<close>

record 't world =
  registry :: "'t registry"
  clock :: 't
  calls :: "'t call list"

text \<open>
  The downstream handler \<^verbatim>\<open>call_next\<close>: given the request and the time at which it is
  invoked, it returns a response or raises, at some later time. It has no access to the
  samples of the middleware's own metrics, and it does not write the middleware's log.
\<close>

type_synonym 't call_next = "request \<Rightarrow> 't \<Rightarrow> (exc + response) \<times> 't"

definition counter_inc :: "child \<Rightarrow> 't world \<Rightarrow> 't world" where
  "counter_inc c w =
     w\<lparr>registry := (registry w)\<lparr>counters := (counters (registry w))(c \<mapsto> counter_value (registry w) c + 1)\<rparr>,
       calls := calls w @ [CounterInc c]\<rparr>"

definition gauge_inc :: "child \<Rightarrow> 't world \<Rightarrow> 't world" where
  "gauge_inc c w =
     w\<lparr>registry := (registry w)\<lparr>gauges := (gauges (registry w))(c \<mapsto> gauge_value (registry w) c + 1)\<rparr>,
       calls := calls w @ [GaugeInc c]\<rparr>"

definition gauge_dec :: "child \<Rightarrow> 't world \<Rightarrow> 't world" where
  "gauge_dec c w =
     w\<lparr>registry := (registry w)\<lparr>gauges := (gauges (registry w))(c \<mapsto> gauge_value (registry w) c - 1)\<rparr>,
       calls := calls w @ [GaugeDec c]\<rparr>"

definition observe :: "child \<Rightarrow> 't \<Rightarrow> 't world \<Rightarrow> 't world" where
  "observe c v w =
     w\<lparr>registry := (registry w)\<lparr>histograms := (histograms (registry w))(c \<mapsto> observations (registry w) c @ [v])\<rparr>,
       calls := calls w @ [Observe c v]\<rparr>"

definition perf_counter :: "'t world \<Rightarrow> 't \<times> 't world" where
  "perf_counter w = (clock w, w\<lparr>calls := calls w @ [PerfCounter]\<rparr>)"

definition await :: "'t call_next \<Rightarrow> request \<Rightarrow> 't world \<Rightarrow> (exc + response) \<times> 't world" where
  "await call_next request w =
     (let (r, t) = call_next request (clock w)
      in (r, w\<lparr>clock := t, calls := calls w @ [CallNext request]\<rparr>))"

section \<open>PrometheusMiddleware\<close>

record middleware =
  filter_unhandled_paths :: bool
  requests :: metric
  responses :: metric
  requests_processing_time :: metric
  exceptions :: metric
  requests_in_progress :: metric

text \<open>
  \<^verbatim>\<open>__init__(self, app, filter_unhandled_paths=False, prefix="")\<close>. An argument left out
  is \<open>None\<close> and takes its default. The application \<^verbatim>\<open>app\<close> is only handed to the base
  class, which builds \<^verbatim>\<open>call_next\<close> from it.
\<close>

definition init :: "bool option \<Rightarrow> string option \<Rightarrow> middleware" where
  "init filter_unhandled_paths_arg prefix_arg =
     (let filter_unhandled_paths = (case filter_unhandled_paths_arg of None \<Rightarrow> False | Some b \<Rightarrow> b);
          prefix = (case prefix_arg of None \<Rightarrow> '''' | Some p \<Rightarrow> p)
      in \<lparr>filter_unhandled_paths = filter_unhandled_paths,
          requests = \<lparr>kind = Counter,
            metric_name = prefix @ ''starlette_requests_total'',
            documentation = ''Total count of requests by method and path.'',
            labelnames = [''method'', ''path_template'']\<rparr>,
          responses = \<lparr>kind = Counter,
            metric_name = prefix @ ''starlette_responses_total'',
            documentation = ''Total count of responses by method, path and status codes.'',
            labelnames = [''method'', ''path_template'', ''status_code'']\<rparr>,
          requests_processing_time = \<lparr>kind = Histogram,
            metric_name = prefix @ ''starlette_requests_processing_time_seconds'',
            documentation = ''Histogram of requests processing time by path (in seconds)'',
            labelnames = [''method'', ''path_template'']\<rparr>,
          exceptions = \<lparr>kind = Counter,
            metric_name = prefix @ ''starlette_exceptions_total'',
            documentation = ''Total count of exceptions raised by path and exception type'',
            labelnames = [''method'', ''path_template'', ''exception_type'']\<rparr>,
          requests_in_progress = \<lparr>kind = Gauge,
            metric_name = prefix @ ''starlette_requests_in_progress'',
            documentation = ''Gauge of requests by method and path currently being processed'',
            labelnames = [''method'', ''path_template'']\<rparr>\<rparr>)"

text \<open>
  \<^verbatim>\<open>get_path_template\<close>: the loop over \<^verbatim>\<open>request.app.routes\<close>, then the fall-through
  \<^verbatim>\<open>return request.url.path, False\<close>.
\<close>

fun get_path_template_loop :: "route list \<Rightarrow> request \<Rightarrow> string \<times> bool" where
  "get_path_template_loop [] request = (url_path request, False)"
| "get_path_template_loop (route # rest) request =
     (let (match, child_scope) = route_matches route (req_scope request)
      in if match = FULL then (route_path route, True)
         else get_path_template_loop rest request)"

definition get_path_template :: "request \<Rightarrow> string \<times> bool" where
  "get_path_template request = get_path_template_loop (app_routes request) request"

definition is_path_filtered :: "middleware \<Rightarrow> bool \<Rightarrow> bool" where
  "is_path_filtered self is_handled_path \<longleftrightarrow> filter_unhandled_paths self \<and> \<not> is_handled_path"

text \<open>
  \<^verbatim>\<open>dispatch\<close>. The \<^verbatim>\<open>try\<close> statement has three ways out. A normal return runs the
  \<^verbatim>\<open>else\<close> block, then \<^verbatim>\<open>finally\<close>. An exception whose class derives from \<^verbatim>\<open>Exception\<close>
  runs the \<^verbatim>\<open>except\<close> block, whose \<^verbatim>\<open>raise e from None\<close> runs \<^verbatim>\<open>finally\<close> on its way
  out. Any other exception matches no handler: \<^verbatim>\<open>finally\<close> runs and the exception goes
  on as it came.
\<close>

definition dispatch ::
  "middleware \<Rightarrow> request \<Rightarrow> ('t::minus) call_next \<Rightarrow> 't world \<Rightarrow> (exc + response) \<times> 't world" where
  "dispatch self request call_next w0 =
     (let method = req_method request;
          (path_template, is_handled_path) = get_path_template request
      in if is_path_filtered self is_handled_path then await call_next request w0
         else
           let w1 = gauge_inc (labels (requests_in_progress self)
                      [(''method'', S method), (''path_template'', S path_template)]) w0;
               w2 = counter_inc (labels (requests self)
                      [(''method'', S method), (''path_template'', S path_template)]) w1;
               (before_time, w3) = perf_counter w2;
               (r, w4) = await call_next request w3
           in case r of
                Inr response \<Rightarrow>
                  let (after_time, w5) = perf_counter w4;
                      w6 = observe (labels (requests_processing_time self)
                             [(''method'', S method), (''path_template'', S path_template)])
                             (after_time - before_time) w5;
                      w7 = counter_inc (labels (responses self)
                             [(''method'', S method), (''path_template'', S path_template),
                              (''status_code'', I (status_code response))]) w6;
                      w8 = gauge_dec (labels (requests_in_progress self)
                             [(''method'', S method), (''path_template'', S path_template)]) w7
                  in (Inr response, w8)
              | Inl e \<Rightarrow>
                  if is_Exception e then
                    let w5 = counter_inc (labels (exceptions self)
                               [(''method'', S method), (''path_template'', S path_template),
                                (''exception_type'', S (type_name e))]) w4;
                        w6 = gauge_dec (labels (requests_in_progress self)
                               [(''method'', S method), (''path_template'', S path_template)]) w5
                    in (Inl (raise_from_None e), w6)
                  else
                    let w5 = gauge_dec (labels (requests_in_progress self)
                               [(''method'', S method), (''path_template'', S path_template)]) w4
                    in (Inl e, w5))"

section \<open>Vocabulary for the properties\<close>

text \<open>The calls made between two states of the world: what was appended to the log.\<close>

definition new_calls :: "'t world \<Rightarrow> 't world \<Rightarrow> 't call list" where
  "new_calls w w' = drop (length (calls w)) (calls w')"

abbreviation request_labels :: "request \<Rightarrow> labelset" where
  "request_labels request \<equiv>
     [(''method'', S (req_method request)),
      (''path_template'', S (fst (get_path_template request)))]"

abbreviation in_progress_child :: "middleware \<Rightarrow> request \<Rightarrow> child" where
  "in_progress_child self request \<equiv> labels (requests_in_progress self) (request_labels request)"

abbreviation requests_child :: "middleware \<Rightarrow> request \<Rightarrow> child" where
  "requests_child self request \<equiv> labels (requests self) (request_labels request)"

abbreviation processing_time_child :: "middleware \<Rightarrow> request \<Rightarrow> child" where
  "processing_time_child self request \<equiv>
     labels (requests_processing_time self) (request_labels request)"

abbreviation responses_child :: "middleware \<Rightarrow> request \<Rightarrow> int \<Rightarrow> child" where
  "responses_child self request code \<equiv>
     labels (responses self)
       [(''method'', S (req_method request)),
        (''path_template'', S (fst (get_path_template request))),
        (''status_code'', I code)]"

abbreviation exceptions_child :: "middleware \<Rightarrow> request \<Rightarrow> string \<Rightarrow> child" where
  "exceptions_child self request kind_name \<equiv>
     labels (exceptions self)
       [(''method'', S (req_method request)),
        (''path_template'', S (fst (get_path_template request))),
        (''exception_type'', S kind_name)]"

abbreviation filtered :: "middleware \<Rightarrow> request \<Rightarrow> bool" where
  "filtered self request \<equiv> is_path_filtered self (snd (get_path_template request))"

text \<open>What one call of \<open>dispatch\<close> adds to the log, and the samples it leaves.\<close>

abbreviation dispatch_calls ::
  "middleware \<Rightarrow> request \<Rightarrow> ('t::minus) call_next \<Rightarrow> 't world \<Rightarrow> 't call list" where
  "dispatch_calls self request call_next w \<equiv>
     new_calls w (snd (dispatch self request call_next w))"

abbreviation dispatch_registry ::
  "middleware \<Rightarrow> request \<Rightarrow> ('t::minus) call_next \<Rightarrow> 't world \<Rightarrow> 't registry" where
  "dispatch_registry self request call_next w \<equiv>
     registry (snd (dispatch self request call_next w))"

text \<open>
  The metric a call addresses, and the same call on the metric whose name has a prefix
  put in front.
\<close>

fun call_metric :: "'t call \<Rightarrow> string option" where
  "call_metric (CounterInc c) = Some (fst c)"
| "call_metric (GaugeInc c) = Some (fst c)"
| "call_metric (GaugeDec c) = Some (fst c)"
| "call_metric (Observe c v) = Some (fst c)"
| "call_metric PerfCounter = None"
| "call_metric (CallNext request) = None"

fun with_prefix :: "string \<Rightarrow> 't call \<Rightarrow> 't call" where
  "with_prefix p (CounterInc c) = CounterInc (p @ fst c, snd c)"
| "with_prefix p (GaugeInc c) = GaugeInc (p @ fst c, snd c)"
| "with_prefix p (GaugeDec c) = GaugeDec (p @ fst c, snd c)"
| "with_prefix p (Observe c v) = Observe (p @ fst c, snd c) v"
| "with_prefix p PerfCounter = PerfCounter"
| "with_prefix p (CallNext request) = CallNext request"

fun is_CallNext :: "'t call \<Rightarrow> bool" where
  "is_CallNext (CallNext request) = True"
| "is_CallNext c = False"

abbreviation own_metrics :: "middleware \<Rightarrow> metric set" where
  "own_metrics self \<equiv>
     {requests self, responses self, requests_processing_time self, exceptions self,
      requests_in_progress self}"

section \<open>The application of the test suite\<close>

text \<open>
  \<^verbatim>\<open>tests/test_end_to_end.py\<close> mounts the middleware on an application with the routes
  \<^verbatim>\<open>/metrics/\<close>, \<^verbatim>\<open>/foo/\<close>, \<^verbatim>\<open>/bar/\<close> and \<^verbatim>\<open>/foo/{bar}/\<close>, in that order. Three
  routes are added here: \<^verbatim>\<open>/foo/baz/\<close>, which accepts a path that \<^verbatim>\<open>/foo/{bar}/\<close> before it
  accepts too, \<^verbatim>\<open>/boom/\<close> and \<^verbatim>\<open>/stop/\<close>. A route matches fully a path it accepts when
  the method is one of its methods, partially when only the method is wrong, and not at
  all otherwise.
\<close>

definition test_route :: "string \<Rightarrow> string list \<Rightarrow> route" where
  "test_route pattern accepted =
     \<lparr>route_path = pattern,
      route_matches = (\<lambda>sc.
        if scope_path sc \<in> set accepted
        then (if scope_method sc \<in> {''GET'', ''HEAD''} then (FULL, []) else (PARTIAL, []))
        else (NONE, []))\<rparr>"

definition test_routes :: "route list" where
  "test_routes =
     [test_route ''/metrics/'' [''/metrics/''],
      test_route ''/foo/'' [''/foo/''],
      test_route ''/bar/'' [''/bar/''],
      test_route ''/foo/{bar}/'' [''/foo/baz/'', ''/foo/qux/''],
      test_route ''/foo/baz/'' [''/foo/baz/''],
      test_route ''/boom/'' [''/boom/''],
      test_route ''/stop/'' [''/stop/'']]"

definition test_request :: "string \<Rightarrow> string \<Rightarrow> request" where
  "test_request m p =
     \<lparr>req_method = m, url_path = p,
      req_scope = \<lparr>scope_method = m, scope_path = p\<rparr>,
      app_routes = test_routes\<rparr>"

text \<open>
  What \<^verbatim>\<open>call_next\<close> does: \<^verbatim>\<open>/foo/\<close> answers 200 after 3 ticks of the clock, \<^verbatim>\<open>/bar/\<close>
  raises \<^verbatim>\<open>ValueError("bar")\<close> after 2 ticks, \<^verbatim>\<open>/boom/\<close> raises a \<^verbatim>\<open>ValueError\<close> chained
  to a \<^verbatim>\<open>KeyError\<close> (\<^verbatim>\<open>raise ValueError("boom") from KeyError("k")\<close>), \<^verbatim>\<open>/stop/\<close> is
  interrupted by a \<^verbatim>\<open>KeyboardInterrupt\<close>, an inner layer refuses \<^verbatim>\<open>/blocked/\<close>, which has no
  route, with a \<^verbatim>\<open>PermissionError\<close>, and any other path is answered 404 after 1 tick.
\<close>

definition ValueError_bar :: exc where
  "ValueError_bar = Exc ''ValueError'' True [''bar''] None None False"

definition KeyError_k :: exc where
  "KeyError_k = Exc ''KeyError'' True [''k''] None None False"

definition ValueError_boom :: exc where
  "ValueError_boom = Exc ''ValueError'' True [''boom''] (Some KeyError_k) None True"

definition KeyboardInterrupt :: exc where
  "KeyboardInterrupt = Exc ''KeyboardInterrupt'' False [] None None False"

definition PermissionError_blocked :: exc where
  "PermissionError_blocked = Exc ''PermissionError'' True [''blocked''] None None False"

definition test_app :: "int call_next" where
  "test_app request t =
     (if url_path request = ''/foo/'' then
        (Inr \<lparr>status_code = 200, headers = [(''content-type'', ''text/plain'')], body = ''Foo''\<rparr>, t + 3)
      else if url_path request = ''/bar/'' then (Inl ValueError_bar, t + 2)
      else if url_path request = ''/boom/'' then (Inl ValueError_boom, t + 2)
      else if url_path request = ''/stop/'' then (Inl KeyboardInterrupt, t + 1)
      else if url_path request = ''/blocked/'' then (Inl PermissionError_blocked, t + 1)
      else (Inr \<lparr>status_code = 404, headers = [], body = ''Not Found''\<rparr>, t + 1))"

definition start :: "int world" where
  "start = \<lparr>registry = empty_registry, clock = 100, calls = []\<rparr>"

section \<open>The ways through \<open>dispatch\<close>\<close>

lemmas prim_defs = gauge_inc_def gauge_dec_def counter_inc_def observe_def perf_counter_def
  await_def new_calls_def labels_def counter_value_def gauge_value_def observations_def

lemma dispatch_filtered:
  "filtered self request \<Longrightarrow>
   dispatch self request call_next w = await call_next request w"
  by (simp add: dispatch_def Let_def case_prod_beta)

lemma dispatch_return:
  assumes "\<not> filtered self request"
    and "call_next request (clock w) = (Inr response, t1)"
  shows "fst (dispatch self request call_next w) = Inr response"
    and "clock (snd (dispatch self request call_next w)) = t1"
    and "new_calls w (snd (dispatch self request call_next w)) =
      [GaugeInc (in_progress_child self request),
       CounterInc (requests_child self request),
       PerfCounter, CallNext request, PerfCounter,
       Observe (processing_time_child self request) (t1 - clock w),
       CounterInc (responses_child self request (status_code response)),
       GaugeDec (in_progress_child self request)]"
    and "counters (registry (snd (dispatch self request call_next w))) =
      (counters (registry w))
        (requests_child self request \<mapsto>
           counter_value (registry w) (requests_child self request) + 1,
         responses_child self request (status_code response) \<mapsto>
           counter_value (registry w) (responses_child self request (status_code response)) + 1)"
    and "gauges (registry (snd (dispatch self request call_next w))) =
      (gauges (registry w))
        (in_progress_child self request \<mapsto>
           gauge_value (registry w) (in_progress_child self request))"
    and "histograms (registry (snd (dispatch self request call_next w))) =
      (histograms (registry w))
        (processing_time_child self request \<mapsto>
           observations (registry w) (processing_time_child self request) @ [t1 - clock w])"
  using assms by (simp_all add: dispatch_def Let_def prim_defs case_prod_beta)

lemma dispatch_raise_Exception:
  assumes "\<not> filtered self request"
    and "call_next request (clock w) = (Inl e, t1)"
    and "is_Exception e"
  shows "fst (dispatch self request call_next w) = Inl (raise_from_None e)"
    and "clock (snd (dispatch self request call_next w)) = t1"
    and "new_calls w (snd (dispatch self request call_next w)) =
      [GaugeInc (in_progress_child self request),
       CounterInc (requests_child self request),
       PerfCounter, CallNext request,
       CounterInc (exceptions_child self request (type_name e)),
       GaugeDec (in_progress_child self request)]"
    and "counters (registry (snd (dispatch self request call_next w))) =
      (counters (registry w))
        (requests_child self request \<mapsto>
           counter_value (registry w) (requests_child self request) + 1,
         exceptions_child self request (type_name e) \<mapsto>
           counter_value (registry w) (exceptions_child self request (type_name e)) + 1)"
    and "gauges (registry (snd (dispatch self request call_next w))) =
      (gauges (registry w))
        (in_progress_child self request \<mapsto>
           gauge_value (registry w) (in_progress_child self request))"
    and "histograms (registry (snd (dispatch self request call_next w))) =
      histograms (registry w)"
  using assms by (simp_all add: dispatch_def Let_def prim_defs case_prod_beta)

lemma dispatch_raise_other:
  assumes "\<not> filtered self request"
    and "call_next request (clock w) = (Inl e, t1)"
    and "\<not> is_Exception e"
  shows "fst (dispatch self request call_next w) = Inl e"
    and "clock (snd (dispatch self request call_next w)) = t1"
    and "new_calls w (snd (dispatch self request call_next w)) =
      [GaugeInc (in_progress_child self request),
       CounterInc (requests_child self request),
       PerfCounter, CallNext request,
       GaugeDec (in_progress_child self request)]"
    and "counters (registry (snd (dispatch self request call_next w))) =
      (counters (registry w))
        (requests_child self request \<mapsto>
           counter_value (registry w) (requests_child self request) + 1)"
    and "gauges (registry (snd (dispatch self request call_next w))) =
      (gauges (registry w))
        (in_progress_child self request \<mapsto>
           gauge_value (registry w) (in_progress_child self request))"
    and "histograms (registry (snd (dispatch self request call_next w))) =
      histograms (registry w)"
  using assms by (simp_all add: dispatch_def Let_def prim_defs case_prod_beta)

lemma dispatch_bypass:
  assumes "filtered self request"
  shows "fst (dispatch self request call_next w) = fst (call_next request (clock w))"
    and "clock (snd (dispatch self request call_next w)) = snd (call_next request (clock w))"
    and "new_calls w (snd (dispatch self request call_next w)) = [CallNext request]"
    and "registry (snd (dispatch self request call_next w)) = registry w"
  using assms by (simp_all add: dispatch_filtered await_def new_calls_def case_prod_beta)

lemma requests_counter_unfiltered:
  assumes "\<not> filtered self request"
  shows "counter_value (dispatch_registry self request call_next w) (requests_child self request) =
         counter_value (registry w) (requests_child self request) + 1"
proof -
  obtain r t1 where out: "call_next request (clock w) = (r, t1)"
    by (cases "call_next request (clock w)")
  show ?thesis
  proof (cases r)
    case (Inr response)
    with out have eq: "call_next request (clock w) = (Inr response, t1)" by simp
    show ?thesis
      by (simp add: dispatch_return(4) [of self request call_next w response t1, OF assms eq]
          counter_value_def labels_def)
  next
    case (Inl e)
    with out have eq: "call_next request (clock w) = (Inl e, t1)" by simp
    show ?thesis
    proof (cases "is_Exception e")
      case True
      show ?thesis
        by (simp add: dispatch_raise_Exception(4) [of self request call_next w e t1, OF assms eq True]
            counter_value_def labels_def)
    next
      case False
      show ?thesis
        by (simp add: dispatch_raise_other(4) [of self request call_next w e t1, OF assms eq False]
            counter_value_def labels_def)
    qed
  qed
qed

lemma calls_ends_unfiltered:
  assumes "\<not> filtered self request"
  shows "hd (dispatch_calls self request call_next w) =
           GaugeInc (in_progress_child self request)"
    and "last (dispatch_calls self request call_next w) =
           GaugeDec (in_progress_child self request)"
    and "CallNext request \<in> set (dispatch_calls self request call_next w)"
proof -
  obtain r t1 where out: "call_next request (clock w) = (r, t1)"
    by (cases "call_next request (clock w)")
  have "hd (dispatch_calls self request call_next w) =
           GaugeInc (in_progress_child self request) \<and>
        last (dispatch_calls self request call_next w) =
           GaugeDec (in_progress_child self request) \<and>
        CallNext request \<in> set (dispatch_calls self request call_next w)"
  proof (cases r)
    case (Inr response)
    with out have eq: "call_next request (clock w) = (Inr response, t1)" by simp
    show ?thesis
      by (simp add: dispatch_return(3) [of self request call_next w response t1, OF assms eq])
  next
    case (Inl e)
    with out have eq: "call_next request (clock w) = (Inl e, t1)" by simp
    show ?thesis
    proof (cases "is_Exception e")
      case True
      show ?thesis
        by (simp add: dispatch_raise_Exception(3) [of self request call_next w e t1, OF assms eq True])
    next
      case False
      show ?thesis
        by (simp add: dispatch_raise_other(3) [of self request call_next w e t1, OF assms eq False])
    qed
  qed
  then show "hd (dispatch_calls self request call_next w) =
           GaugeInc (in_progress_child self request)"
    and "last (dispatch_calls self request call_next w) =
           GaugeDec (in_progress_child self request)"
    and "CallNext request \<in> set (dispatch_calls self request call_next w)"
    by simp_all
qed

lemma loop_no_match:
  "\<forall>r \<in> set rs. fst (route_matches r (req_scope request)) \<noteq> FULL \<Longrightarrow>
   get_path_template_loop rs request = (url_path request, False)"
  by (induction rs) (simp_all add: case_prod_beta)

lemma loop_first_match:
  "i < length rs \<Longrightarrow> fst (route_matches (rs ! i) (req_scope request)) = FULL \<Longrightarrow>
   \<forall>j<i. fst (route_matches (rs ! j) (req_scope request)) \<noteq> FULL \<Longrightarrow>
   get_path_template_loop rs request = (route_path (rs ! i), True)"
proof (induction rs arbitrary: i)
  case Nil
  then show ?case by simp
next
  case (Cons r rs)
  show ?case
  proof (cases i)
    case 0
    with Cons.prems show ?thesis by (simp add: case_prod_beta)
  next
    case (Suc k)
    from Cons.prems(3) Suc have head: "fst (route_matches r (req_scope request)) \<noteq> FULL"
      by auto
    from Cons.prems(3) Suc
    have rest: "\<forall>j<k. fst (route_matches (rs ! j) (req_scope request)) \<noteq> FULL"
      by auto
    from Cons.prems(1,2) Suc have "k < length rs"
      and "fst (route_matches (rs ! k) (req_scope request)) = FULL"
      by simp_all
    then have "get_path_template_loop rs request = (route_path (rs ! k), True)"
      using rest by (rule Cons.IH)
    with head Suc show ?thesis by (simp add: case_prod_beta)
  qed
qed

lemma loop_handled_iff:
  "snd (get_path_template_loop rs request) \<longleftrightarrow>
   (\<exists>r \<in> set rs. fst (route_matches r (req_scope request)) = FULL)"
  by (induction rs) (simp_all add: case_prod_beta)

lemmas fixture_defs = test_route_def test_routes_def test_request_def test_app_def start_def
  empty_registry_def init_def is_path_filtered_def get_path_template_def

section \<open>Facts about the test application\<close>

lemma test_request_sel:
  "req_method (test_request m p) = m"
  "url_path (test_request m p) = p"
  by (simp_all add: test_request_def)

lemma test_templates:
  "get_path_template (test_request ''GET'' ''/metrics/'') = (''/metrics/'', True)"
  "get_path_template (test_request ''GET'' ''/foo/'') = (''/foo/'', True)"
  "get_path_template (test_request ''GET'' ''/bar/'') = (''/bar/'', True)"
  "get_path_template (test_request ''GET'' ''/boom/'') = (''/boom/'', True)"
  "get_path_template (test_request ''GET'' ''/stop/'') = (''/stop/'', True)"
  "get_path_template (test_request ''GET'' ''/blocked/'') = (''/blocked/'', False)"
  "get_path_template (test_request ''GET'' ''/any/unhandled/path'') = (''/any/unhandled/path'', False)"
  by (simp_all add: get_path_template_def test_request_def test_routes_def test_route_def)

lemma test_app_outcomes:
  "test_app (test_request m ''/foo/'') t =
     (Inr \<lparr>status_code = 200, headers = [(''content-type'', ''text/plain'')], body = ''Foo''\<rparr>, t + 3)"
  "test_app (test_request m ''/bar/'') t = (Inl ValueError_bar, t + 2)"
  "test_app (test_request m ''/boom/'') t = (Inl ValueError_boom, t + 2)"
  "test_app (test_request m ''/stop/'') t = (Inl KeyboardInterrupt, t + 1)"
  "test_app (test_request m ''/blocked/'') t = (Inl PermissionError_blocked, t + 1)"
  "test_app (test_request m ''/any/unhandled/path'') t =
     (Inr \<lparr>status_code = 404, headers = [], body = ''Not Found''\<rparr>, t + 1)"
  by (simp_all add: test_app_def test_request_def)

lemma start_sel:
  "clock start = 100"
  "calls start = []"
  "counters (registry start) = Map.empty"
  "gauges (registry start) = Map.empty"
  "histograms (registry start) = Map.empty"
  by (simp_all add: start_def empty_registry_def)

lemma init_names:
  "metric_name (requests (init f None)) = ''starlette_requests_total''"
  "metric_name (responses (init f None)) = ''starlette_responses_total''"
  "metric_name (requests_processing_time (init f None)) =
     ''starlette_requests_processing_time_seconds''"
  "metric_name (exceptions (init f None)) = ''starlette_exceptions_total''"
  "metric_name (requests_in_progress (init f None)) = ''starlette_requests_in_progress''"
  "filter_unhandled_paths (init None p) = False"
  "filter_unhandled_paths (init (Some b) p) = b"
  by (simp_all add: init_def Let_def)

lemmas test_facts = test_request_sel test_templates test_app_outcomes start_sel init_names
  labels_def is_path_filtered_def counter_value_def gauge_value_def observations_def

section \<open>The path-template resolver\<close>

text \<open>
  C2. The resolver goes through the registered routes in registration order. When the
  route at position \<open>i\<close> matches fully and no route before it does, the result is that
  route's pattern string and \<open>True\<close>; when no route of the list matches fully, the result
  is the raw request path and \<open>False\<close>.
\<close>

theorem first_full_match_wins:
  "(\<forall>i < length (app_routes request).
      fst (route_matches (app_routes request ! i) (req_scope request)) = FULL \<and>
      (\<forall>j < i. fst (route_matches (app_routes request ! j) (req_scope request)) \<noteq> FULL) \<longrightarrow>
      get_path_template request = (route_path (app_routes request ! i), True)) \<and>
   ((\<forall>r \<in> set (app_routes request). fst (route_matches r (req_scope request)) \<noteq> FULL) \<longrightarrow>
      get_path_template request = (url_path request, False))"
  unfolding get_path_template_def
  by (auto intro: loop_first_match loop_no_match)

theorem first_full_match_wins_witness:
  "get_path_template (test_request ''GET'' ''/foo/baz/'') = (''/foo/{bar}/'', True) \<and>
   get_path_template (test_request ''GET'' ''/any/unhandled/path'') = (''/any/unhandled/path'', False) \<and>
   get_path_template (test_request ''POST'' ''/foo/'') = (''/foo/'', False)"
proof -
  let ?r = "test_request ''GET'' ''/foo/baz/''"
  have "3 < length (app_routes ?r)"
    and "fst (route_matches (app_routes ?r ! 3) (req_scope ?r)) = FULL"
    and "\<forall>j < 3. fst (route_matches (app_routes ?r ! j) (req_scope ?r)) \<noteq> FULL"
    and "route_path (app_routes ?r ! 3) = ''/foo/{bar}/''"
    by (simp_all add: test_route_def test_routes_def test_request_def less_Suc_eq numeral_3_eq_3)
  with first_full_match_wins [of ?r]
  have a: "get_path_template ?r = (''/foo/{bar}/'', True)"
    by metis
  let ?u = "test_request ''GET'' ''/any/unhandled/path''"
  have "\<forall>r \<in> set (app_routes ?u). fst (route_matches r (req_scope ?u)) \<noteq> FULL"
    and "url_path ?u = ''/any/unhandled/path''"
    by (simp_all add: test_route_def test_routes_def test_request_def)
  with first_full_match_wins [of ?u]
  have b: "get_path_template ?u = (''/any/unhandled/path'', False)"
    by metis
  let ?p = "test_request ''POST'' ''/foo/''"
  have "\<forall>r \<in> set (app_routes ?p). fst (route_matches r (req_scope ?p)) \<noteq> FULL"
    and "url_path ?p = ''/foo/''"
    by (simp_all add: test_route_def test_routes_def test_request_def)
  with first_full_match_wins [of ?p]
  have c: "get_path_template ?p = (''/foo/'', False)"
    by metis
  from a b c show ?thesis by simp
qed

section \<open>The in-flight gauge\<close>

text \<open>
  C1. For a request that is not filtered out, whatever the downstream handler does
  (return, raise an \<^verbatim>\<open>Exception\<close>, raise any other exception), the calls of one
  \<open>dispatch\<close> hold exactly one increment and exactly one decrement of the in-flight gauge
  of the request's (method, path_template) labels and exactly one downstream invocation;
  the increment is among the calls made before the downstream invocation, the decrement is
  not; and the gauge ends at the value it had before the request.
\<close>

theorem in_flight_gauge_inc_dec_once:
  assumes "\<not> filtered self request"
  shows "count_list (dispatch_calls self request call_next w)
           (GaugeInc (in_progress_child self request)) = 1 \<and>
         count_list (dispatch_calls self request call_next w)
           (GaugeDec (in_progress_child self request)) = 1 \<and>
         count_list (dispatch_calls self request call_next w) (CallNext request) = 1 \<and>
         takeWhile (\<lambda>c. c \<noteq> CallNext request) (dispatch_calls self request call_next w) =
           [GaugeInc (in_progress_child self request),
            CounterInc (requests_child self request), PerfCounter] \<and>
         gauge_value (dispatch_registry self request call_next w) (in_progress_child self request) =
           gauge_value (registry w) (in_progress_child self request)"
proof -
  obtain r t1 where out: "call_next request (clock w) = (r, t1)"
    by (cases "call_next request (clock w)")
  show ?thesis
  proof (cases r)
    case (Inr response)
    with out have eq: "call_next request (clock w) = (Inr response, t1)" by simp
    show ?thesis
      by (simp add: dispatch_return(3,5) [of self request call_next w response t1, OF assms eq] gauge_value_def labels_def)
  next
    case (Inl e)
    with out have eq: "call_next request (clock w) = (Inl e, t1)" by simp
    show ?thesis
    proof (cases "is_Exception e")
      case True
      show ?thesis
        by (simp add: dispatch_raise_Exception(3,5) [of self request call_next w e t1, OF assms eq True] gauge_value_def labels_def)
    next
      case False
      show ?thesis
        by (simp add: dispatch_raise_other(3,5) [of self request call_next w e t1, OF assms eq False] gauge_value_def labels_def)
    qed
  qed
qed

theorem in_flight_gauge_inc_dec_once_witness:
  "\<not> filtered (init None None) (test_request ''GET'' ''/bar/'') \<and>
   count_list (dispatch_calls (init None None) (test_request ''GET'' ''/bar/'') test_app start)
     (GaugeInc (''starlette_requests_in_progress'',
                [(''method'', S ''GET''), (''path_template'', S ''/bar/'')])) = 1 \<and>
   count_list (dispatch_calls (init None None) (test_request ''GET'' ''/bar/'') test_app start)
     (GaugeDec (''starlette_requests_in_progress'',
                [(''method'', S ''GET''), (''path_template'', S ''/bar/'')])) = 1 \<and>
   gauge_value (dispatch_registry (init None None) (test_request ''GET'' ''/bar/'') test_app start)
     (''starlette_requests_in_progress'',
      [(''method'', S ''GET''), (''path_template'', S ''/bar/'')]) = 0"
proof -
  let ?r = "test_request ''GET'' ''/bar/''"
  have t: "get_path_template ?r = (''/bar/'', True)"
    by (simp add: fixture_defs)
  have m: "req_method ?r = ''GET''"
    by (simp add: test_request_def)
  have nf: "\<not> filtered (init None None) ?r"
    by (simp add: t is_path_filtered_def init_def)
  have c: "in_progress_child (init None None) ?r =
      (''starlette_requests_in_progress'', [(''method'', S ''GET''), (''path_template'', S ''/bar/'')])"
    by (simp add: t m labels_def init_def)
  have z: "gauge_value (registry start) (''starlette_requests_in_progress'',
      [(''method'', S ''GET''), (''path_template'', S ''/bar/'')]) = 0"
    by (simp add: gauge_value_def start_def empty_registry_def)
  from in_flight_gauge_inc_dec_once [OF nf, where call_next = test_app and w = start] nf show ?thesis
    unfolding c z by simp
qed

section \<open>The order of the calls\<close>

text \<open>
  C7. For a request that is not filtered out, the calls of one \<open>dispatch\<close>, in program
  order, are: the increment of the in-flight gauge first, then some calls, then the
  downstream invocation, then some calls, then the decrement of the in-flight gauge last;
  none of the calls in between is one of these three.
\<close>

theorem gauge_inc_then_downstream_then_gauge_dec:
  assumes "\<not> filtered self request"
  shows "\<exists>before after.
           dispatch_calls self request call_next w =
             [GaugeInc (in_progress_child self request)] @ before @
             [CallNext request] @ after @
             [GaugeDec (in_progress_child self request)] \<and>
           (\<forall>c \<in> set (before @ after).
              c \<noteq> GaugeInc (in_progress_child self request) \<and>
              c \<noteq> CallNext request \<and>
              c \<noteq> GaugeDec (in_progress_child self request))"
proof -
  obtain r t1 where out: "call_next request (clock w) = (r, t1)"
    by (cases "call_next request (clock w)")
  let ?before = "[CounterInc (requests_child self request), PerfCounter]"
  show ?thesis
  proof (cases r)
    case (Inr response)
    with out have eq: "call_next request (clock w) = (Inr response, t1)" by simp
    let ?after = "[PerfCounter,
       Observe (processing_time_child self request) (t1 - clock w),
       CounterInc (responses_child self request (status_code response))]"
    show ?thesis
      by (rule exI [of _ ?before], rule exI [of _ ?after])
        (simp add: dispatch_return(3) [of self request call_next w response t1, OF assms eq])
  next
    case (Inl e)
    with out have eq: "call_next request (clock w) = (Inl e, t1)" by simp
    show ?thesis
    proof (cases "is_Exception e")
      case True
      let ?after = "[CounterInc (exceptions_child self request (type_name e))]"
      show ?thesis
        by (rule exI [of _ ?before], rule exI [of _ ?after])
          (simp add: dispatch_raise_Exception(3) [of self request call_next w e t1, OF assms eq True])
    next
      case False
      show ?thesis
        by (rule exI [of _ ?before], rule exI [of _ "[]"])
          (simp add: dispatch_raise_other(3) [of self request call_next w e t1, OF assms eq False])
    qed
  qed
qed

theorem gauge_inc_then_downstream_then_gauge_dec_witness:
  "\<not> filtered (init None None) (test_request ''GET'' ''/foo/'') \<and>
   hd (dispatch_calls (init None None) (test_request ''GET'' ''/foo/'') test_app start) =
     GaugeInc (''starlette_requests_in_progress'',
               [(''method'', S ''GET''), (''path_template'', S ''/foo/'')]) \<and>
   last (dispatch_calls (init None None) (test_request ''GET'' ''/foo/'') test_app start) =
     GaugeDec (''starlette_requests_in_progress'',
               [(''method'', S ''GET''), (''path_template'', S ''/foo/'')]) \<and>
   CallNext (test_request ''GET'' ''/foo/'') \<in>
     set (butlast (tl (dispatch_calls (init None None) (test_request ''GET'' ''/foo/'')
       test_app start)))"
proof -
  let ?r = "test_request ''GET'' ''/foo/''"
  have nf: "\<not> filtered (init None None) ?r"
    by (simp add: test_facts)
  have c: "in_progress_child (init None None) ?r =
      (''starlette_requests_in_progress'', [(''method'', S ''GET''), (''path_template'', S ''/foo/'')])"
    by (simp add: test_facts)
  from gauge_inc_then_downstream_then_gauge_dec [OF nf, where call_next = test_app and w = start]
  obtain before after where
    "dispatch_calls (init None None) ?r test_app start =
       [GaugeInc (in_progress_child (init None None) ?r)] @ before @ [CallNext ?r] @ after @
       [GaugeDec (in_progress_child (init None None) ?r)]"
    by blast
  with nf show ?thesis
    unfolding c by (simp add: butlast_append)
qed

section \<open>A normal return\<close>

text \<open>
  C5. When the downstream handler of a request that is not filtered out returns a
  response, \<open>dispatch\<close> returns that response; the processing-time histogram of
  (method, template) gets one more observation, the clock reading after the downstream
  call minus the reading before it; the responses counter of (method, template, status
  code of the response) and the requests counter of (method, template) each go up by
  exactly 1; no other counter and no other histogram child changes.
\<close>

theorem normal_return_recorded:
  assumes "\<not> filtered self request"
    and "call_next request (clock w) = (Inr response, t1)"
  shows "fst (dispatch self request call_next w) = Inr response \<and>
         observations (dispatch_registry self request call_next w)
             (processing_time_child self request) =
           observations (registry w) (processing_time_child self request) @ [t1 - clock w] \<and>
         counter_value (dispatch_registry self request call_next w)
             (responses_child self request (status_code response)) =
           counter_value (registry w) (responses_child self request (status_code response)) + 1 \<and>
         counter_value (dispatch_registry self request call_next w)
             (requests_child self request) =
           counter_value (registry w) (requests_child self request) + 1 \<and>
         (\<forall>c. c \<noteq> requests_child self request \<and>
              c \<noteq> responses_child self request (status_code response) \<longrightarrow>
              counters (dispatch_registry self request call_next w) c = counters (registry w) c) \<and>
         (\<forall>c. c \<noteq> processing_time_child self request \<longrightarrow>
              histograms (dispatch_registry self request call_next w) c =
              histograms (registry w) c)"
  by (simp add: dispatch_return [of self request call_next w response t1, OF assms]
      counter_value_def observations_def labels_def)

theorem normal_return_recorded_witness:
  "\<not> filtered (init None None) (test_request ''GET'' ''/foo/'') \<and>
   test_app (test_request ''GET'' ''/foo/'') (clock start) =
     (Inr \<lparr>status_code = 200, headers = [(''content-type'', ''text/plain'')], body = ''Foo''\<rparr>, 103) \<and>
   observations (dispatch_registry (init None None) (test_request ''GET'' ''/foo/'') test_app start)
     (''starlette_requests_processing_time_seconds'',
      [(''method'', S ''GET''), (''path_template'', S ''/foo/'')]) = [3] \<and>
   counter_value (dispatch_registry (init None None) (test_request ''GET'' ''/foo/'') test_app start)
     (''starlette_responses_total'',
      [(''method'', S ''GET''), (''path_template'', S ''/foo/''), (''status_code'', I 200)]) = 1 \<and>
   counter_value (dispatch_registry (init None None) (test_request ''GET'' ''/foo/'') test_app start)
     (''starlette_requests_total'',
      [(''method'', S ''GET''), (''path_template'', S ''/foo/'')]) = 1"
proof -
  let ?r = "test_request ''GET'' ''/foo/''"
  let ?resp = "\<lparr>status_code = 200, headers = [(''content-type'', ''text/plain'')], body = ''Foo''\<rparr>"
  have nf: "\<not> filtered (init None None) ?r"
    by (simp add: test_facts)
  have out: "test_app ?r (clock start) = (Inr ?resp, 103)"
    by (simp add: test_facts)
  from normal_return_recorded [of "init None None" ?r test_app start ?resp 103, OF nf out] nf out
  show ?thesis
    by (simp add: test_facts)
qed

section \<open>Filtering of unhandled paths\<close>

text \<open>
  C3. With \<open>filter_unhandled_paths\<close> set, a request that no route matched is handed to
  the downstream handler and nothing else happens: the result is the downstream result,
  the registry is what it was, and the only call made is the downstream invocation. A
  request that a route matched is not filtered out and is recorded: the requests counter
  of its (method, template) goes up by exactly 1, the first call is the increment of its
  in-flight gauge, the last call its decrement, the downstream handler is invoked, and the
  whole outcome is that of the same middleware with \<open>filter_unhandled_paths\<close> unset.
\<close>

theorem filter_unhandled_paths_bypass:
  assumes "filter_unhandled_paths self"
  shows "(\<not> snd (get_path_template request) \<longrightarrow>
            fst (dispatch self request call_next w) = fst (call_next request (clock w)) \<and>
            dispatch_registry self request call_next w = registry w \<and>
            dispatch_calls self request call_next w = [CallNext request]) \<and>
         (snd (get_path_template request) \<longrightarrow>
            dispatch self request call_next w =
              dispatch (self\<lparr>filter_unhandled_paths := False\<rparr>) request call_next w \<and>
            \<not> filtered self request \<and>
            counter_value (dispatch_registry self request call_next w)
                (requests_child self request) =
              counter_value (registry w) (requests_child self request) + 1 \<and>
            hd (dispatch_calls self request call_next w) =
              GaugeInc (in_progress_child self request) \<and>
            last (dispatch_calls self request call_next w) =
              GaugeDec (in_progress_child self request) \<and>
            CallNext request \<in> set (dispatch_calls self request call_next w))"
proof (intro conjI impI)
  assume "\<not> snd (get_path_template request)"
  with assms have f: "filtered self request"
    by (simp add: is_path_filtered_def)
  show "fst (dispatch self request call_next w) = fst (call_next request (clock w))"
    and "dispatch_registry self request call_next w = registry w"
    and "dispatch_calls self request call_next w = [CallNext request]"
    by (simp_all add: dispatch_bypass [OF f])
next
  assume m: "snd (get_path_template request)"
  then show "dispatch self request call_next w =
      dispatch (self\<lparr>filter_unhandled_paths := False\<rparr>) request call_next w"
    by (simp add: dispatch_def is_path_filtered_def case_prod_beta Let_def split: sum.splits)
  from m show nf: "\<not> filtered self request"
    by (simp add: is_path_filtered_def)
  show "counter_value (dispatch_registry self request call_next w)
                (requests_child self request) =
              counter_value (registry w) (requests_child self request) + 1"
    by (rule requests_counter_unfiltered [OF nf])
  show "hd (dispatch_calls self request call_next w) =
              GaugeInc (in_progress_child self request)"
    by (rule calls_ends_unfiltered(1) [OF nf])
  show "last (dispatch_calls self request call_next w) =
              GaugeDec (in_progress_child self request)"
    by (rule calls_ends_unfiltered(2) [OF nf])
  show "CallNext request \<in> set (dispatch_calls self request call_next w)"
    by (rule calls_ends_unfiltered(3) [OF nf])
qed

theorem filter_unhandled_paths_bypass_witness:
  "filter_unhandled_paths (init (Some True) None) \<and>
   \<not> snd (get_path_template (test_request ''GET'' ''/any/unhandled/path'')) \<and>
   dispatch_registry (init (Some True) None) (test_request ''GET'' ''/any/unhandled/path'')
     test_app start = registry start \<and>
   dispatch_calls (init (Some True) None) (test_request ''GET'' ''/any/unhandled/path'')
     test_app start = [CallNext (test_request ''GET'' ''/any/unhandled/path'')] \<and>
   snd (get_path_template (test_request ''GET'' ''/metrics/'')) \<and>
   dispatch (init (Some True) None) (test_request ''GET'' ''/metrics/'') test_app start =
     dispatch ((init (Some True) None)\<lparr>filter_unhandled_paths := False\<rparr>)
       (test_request ''GET'' ''/metrics/'') test_app start \<and>
   counter_value
     (dispatch_registry (init (Some True) None) (test_request ''GET'' ''/metrics/'') test_app start)
     (''starlette_requests_total'',
      [(''method'', S ''GET''), (''path_template'', S ''/metrics/'')]) = 1 \<and>
   hd (dispatch_calls (init (Some True) None) (test_request ''GET'' ''/metrics/'') test_app start) =
     GaugeInc (''starlette_requests_in_progress'',
               [(''method'', S ''GET''), (''path_template'', S ''/metrics/'')]) \<and>
   last (dispatch_calls (init (Some True) None) (test_request ''GET'' ''/metrics/'') test_app start) =
     GaugeDec (''starlette_requests_in_progress'',
               [(''method'', S ''GET''), (''path_template'', S ''/metrics/'')])"
proof -
  let ?m = "test_request ''GET'' ''/metrics/''"
  have f: "filter_unhandled_paths (init (Some True) None)"
    by (simp add: test_facts)
  have u: "\<not> snd (get_path_template (test_request ''GET'' ''/any/unhandled/path''))"
    and m: "snd (get_path_template ?m)"
    by (simp_all add: test_facts)
  have c: "requests_child (init (Some True) None) ?m =
      (''starlette_requests_total'', [(''method'', S ''GET''), (''path_template'', S ''/metrics/'')])"
    and g: "in_progress_child (init (Some True) None) ?m =
      (''starlette_requests_in_progress'',
       [(''method'', S ''GET''), (''path_template'', S ''/metrics/'')])"
    by (simp_all add: test_facts)
  have z: "counter_value (registry start)
      (''starlette_requests_total'', [(''method'', S ''GET''), (''path_template'', S ''/metrics/'')]) = 0"
    by (simp add: test_facts)
  from filter_unhandled_paths_bypass [OF f,
      where request = "test_request ''GET'' ''/any/unhandled/path''"
        and call_next = test_app and w = start] u
  have p1: "dispatch_registry (init (Some True) None) (test_request ''GET'' ''/any/unhandled/path'')
      test_app start = registry start"
    and p2: "dispatch_calls (init (Some True) None) (test_request ''GET'' ''/any/unhandled/path'')
      test_app start = [CallNext (test_request ''GET'' ''/any/unhandled/path'')]"
    by blast+
  from filter_unhandled_paths_bypass [OF f,
      where request = ?m and call_next = test_app and w = start] m
  have q1: "dispatch (init (Some True) None) ?m test_app start =
      dispatch ((init (Some True) None)\<lparr>filter_unhandled_paths := False\<rparr>) ?m test_app start"
    and q2: "counter_value (dispatch_registry (init (Some True) None) ?m test_app start)
        (requests_child (init (Some True) None) ?m) =
      counter_value (registry start) (requests_child (init (Some True) None) ?m) + 1"
    and q3: "hd (dispatch_calls (init (Some True) None) ?m test_app start) =
      GaugeInc (in_progress_child (init (Some True) None) ?m)"
    and q4: "last (dispatch_calls (init (Some True) None) ?m test_app start) =
      GaugeDec (in_progress_child (init (Some True) None) ?m)"
    by blast+
  from q2 have q2': "counter_value (dispatch_registry (init (Some True) None) ?m test_app start)
      (''starlette_requests_total'',
       [(''method'', S ''GET''), (''path_template'', S ''/metrics/'')]) = 1"
    unfolding c z by simp
  note q3' = q3 [unfolded g] and q4' = q4 [unfolded g]
  from f u m p1 p2 q1 q2' q3' q4' show ?thesis
    by blast
qed

text \<open>
  C10. When a request is filtered out and the downstream handler raises, \<open>dispatch\<close>
  raises that very error, the registry is what it was (the exceptions counter and the
  in-flight gauge of the request included), and the only call made is the downstream
  invocation.
\<close>

theorem filtered_error_propagates_untouched:
  assumes "filter_unhandled_paths self"
    and "\<not> snd (get_path_template request)"
    and "call_next request (clock w) = (Inl e, t1)"
  shows "fst (dispatch self request call_next w) = Inl e \<and>
         dispatch_registry self request call_next w = registry w \<and>
         dispatch_calls self request call_next w = [CallNext request] \<and>
         counters (dispatch_registry self request call_next w)
           (exceptions_child self request (type_name e)) =
         counters (registry w) (exceptions_child self request (type_name e)) \<and>
         gauges (dispatch_registry self request call_next w) (in_progress_child self request) =
         gauges (registry w) (in_progress_child self request)"
proof -
  from assms(1,2) have f: "filtered self request"
    by (simp add: is_path_filtered_def)
  show ?thesis
    by (simp add: dispatch_bypass [OF f] assms(3))
qed

theorem filtered_error_propagates_untouched_witness:
  "filter_unhandled_paths (init (Some True) None) \<and>
   \<not> snd (get_path_template (test_request ''GET'' ''/blocked/'')) \<and>
   test_app (test_request ''GET'' ''/blocked/'') (clock start) = (Inl PermissionError_blocked, 101) \<and>
   fst (dispatch (init (Some True) None) (test_request ''GET'' ''/blocked/'') test_app start) =
     Inl PermissionError_blocked \<and>
   dispatch_registry (init (Some True) None) (test_request ''GET'' ''/blocked/'') test_app start =
     registry start \<and>
   dispatch_calls (init (Some True) None) (test_request ''GET'' ''/blocked/'') test_app start =
     [CallNext (test_request ''GET'' ''/blocked/'')]"
proof -
  let ?r = "test_request ''GET'' ''/blocked/''"
  have f: "filter_unhandled_paths (init (Some True) None)"
    and u: "\<not> snd (get_path_template ?r)"
    and out: "test_app ?r (clock start) = (Inl PermissionError_blocked, 101)"
    by (simp_all add: test_facts)
  from filtered_error_propagates_untouched
    [of "init (Some True) None" ?r test_app start PermissionError_blocked 101, OF f u out] f u out
  show ?thesis by blast
qed

section \<open>A downstream error\<close>

text \<open>
  C4, as the code has it. When the downstream handler of a request that is not filtered
  out raises an error, no histogram child and no responses counter changes, and \<open>dispatch\<close>
  raises that error. When the error's class derives from \<^verbatim>\<open>Exception\<close>, the exceptions
  counter of (method, template, name of the error's class) goes up by exactly 1 and the
  error raised is the same object, with the same class, arguments and \<^verbatim>\<open>__context__\<close>, but
  with \<^verbatim>\<open>__cause__\<close> set to \<^verbatim>\<open>None\<close> and \<^verbatim>\<open>__suppress_context__\<close> set to \<^verbatim>\<open>True\<close>, as
  \<^verbatim>\<open>raise e from None\<close> does. When the error's class does not derive from \<^verbatim>\<open>Exception\<close>,
  no exceptions counter changes and the error raised is the downstream handler's,
  untouched.
\<close>

theorem exception_recorded_and_reraised:
  assumes "\<not> filtered self request"
    and "call_next request (clock w) = (Inl e, t1)"
  shows "histograms (dispatch_registry self request call_next w) = histograms (registry w) \<and>
         (\<forall>code. counters (dispatch_registry self request call_next w)
                    (responses_child self request code) =
                  counters (registry w) (responses_child self request code)) \<and>
         (is_Exception e \<longrightarrow>
            counter_value (dispatch_registry self request call_next w)
                (exceptions_child self request (type_name e)) =
              counter_value (registry w) (exceptions_child self request (type_name e)) + 1 \<and>
            fst (dispatch self request call_next w) = Inl (raise_from_None e) \<and>
            type_name (raise_from_None e) = type_name e \<and>
            is_Exception (raise_from_None e) = is_Exception e \<and>
            args (raise_from_None e) = args e \<and>
            exc_context (raise_from_None e) = exc_context e \<and>
            cause (raise_from_None e) = None \<and>
            suppress_context (raise_from_None e)) \<and>
         (\<not> is_Exception e \<longrightarrow>
            fst (dispatch self request call_next w) = Inl e \<and>
            (\<forall>kind_name. counters (dispatch_registry self request call_next w)
                    (exceptions_child self request kind_name) =
                  counters (registry w) (exceptions_child self request kind_name)))"
proof (cases "is_Exception e")
  case True
  have "type_name (raise_from_None e) = type_name e \<and>
        is_Exception (raise_from_None e) = is_Exception e \<and>
        args (raise_from_None e) = args e \<and>
        exc_context (raise_from_None e) = exc_context e \<and>
        cause (raise_from_None e) = None \<and>
        suppress_context (raise_from_None e)"
    by (cases e) simp
  with True show ?thesis
    by (simp add: dispatch_raise_Exception [of self request call_next w e t1, OF assms True]
        counter_value_def labels_def)
next
  case False
  then show ?thesis
    by (simp add: dispatch_raise_other [of self request call_next w e t1, OF assms False]
        labels_def)
qed

theorem exception_recorded_and_reraised_witness:
  "\<not> filtered (init None None) (test_request ''GET'' ''/bar/'') \<and>
   test_app (test_request ''GET'' ''/bar/'') (clock start) = (Inl ValueError_bar, 102) \<and>
   is_Exception ValueError_bar \<and>
   counter_value (dispatch_registry (init None None) (test_request ''GET'' ''/bar/'') test_app start)
     (''starlette_exceptions_total'',
      [(''method'', S ''GET''), (''path_template'', S ''/bar/''),
       (''exception_type'', S ''ValueError'')]) = 1 \<and>
   histograms (dispatch_registry (init None None) (test_request ''GET'' ''/bar/'') test_app start) =
     Map.empty \<and>
   fst (dispatch (init None None) (test_request ''GET'' ''/bar/'') test_app start) =
     Inl (Exc ''ValueError'' True [''bar''] None None True) \<and>
   \<not> filtered (init None None) (test_request ''GET'' ''/stop/'') \<and>
   test_app (test_request ''GET'' ''/stop/'') (clock start) = (Inl KeyboardInterrupt, 101) \<and>
   \<not> is_Exception KeyboardInterrupt \<and>
   fst (dispatch (init None None) (test_request ''GET'' ''/stop/'') test_app start) =
     Inl KeyboardInterrupt \<and>
   histograms (dispatch_registry (init None None) (test_request ''GET'' ''/stop/'') test_app start) =
     Map.empty \<and>
   counters (dispatch_registry (init None None) (test_request ''GET'' ''/stop/'') test_app start)
     (''starlette_responses_total'',
      [(''method'', S ''GET''), (''path_template'', S ''/stop/''), (''status_code'', I 500)]) =
     None"
proof -
  let ?r = "test_request ''GET'' ''/bar/''"
  let ?s = "test_request ''GET'' ''/stop/''"
  have nf: "\<not> filtered (init None None) ?r"
    and out: "test_app ?r (clock start) = (Inl ValueError_bar, 102)"
    and ex: "is_Exception ValueError_bar"
    and nfs: "\<not> filtered (init None None) ?s"
    and outs: "test_app ?s (clock start) = (Inl KeyboardInterrupt, 101)"
    and exs: "\<not> is_Exception KeyboardInterrupt"
    by (simp_all add: test_facts ValueError_bar_def KeyboardInterrupt_def)
  from exception_recorded_and_reraised
    [of "init None None" ?r test_app start ValueError_bar 102, OF nf out] ex
  have a: "counter_value (dispatch_registry (init None None) ?r test_app start)
        (exceptions_child (init None None) ?r (type_name ValueError_bar)) =
      counter_value (registry start)
        (exceptions_child (init None None) ?r (type_name ValueError_bar)) + 1"
    and b: "histograms (dispatch_registry (init None None) ?r test_app start) =
      histograms (registry start)"
    and c: "fst (dispatch (init None None) ?r test_app start) = Inl (raise_from_None ValueError_bar)"
    by blast+
  from exception_recorded_and_reraised
    [of "init None None" ?s test_app start KeyboardInterrupt 101, OF nfs outs] exs
  have d: "fst (dispatch (init None None) ?s test_app start) = Inl KeyboardInterrupt"
    and e: "histograms (dispatch_registry (init None None) ?s test_app start) =
      histograms (registry start)"
    and f: "counters (dispatch_registry (init None None) ?s test_app start)
        (responses_child (init None None) ?s 500) =
      counters (registry start) (responses_child (init None None) ?s 500)"
    by blast+
  from a b c d e f nf out ex nfs outs exs show ?thesis
    by (simp add: test_facts ValueError_bar_def)
qed

text \<open>
  C4, as the claim states it, fails twice. A \<^verbatim>\<open>ValueError\<close> raised from a \<^verbatim>\<open>KeyError\<close>
  does not come out unchanged: it has lost its \<^verbatim>\<open>__cause__\<close>. And a \<^verbatim>\<open>KeyboardInterrupt\<close>,
  which does not derive from \<^verbatim>\<open>Exception\<close>, is raised by the downstream handler without
  any exceptions counter being incremented.
\<close>

theorem reraised_error_changed_counterexample:
  "\<not> filtered (init None None) (test_request ''GET'' ''/boom/'') \<and>
   test_app (test_request ''GET'' ''/boom/'') (clock start) = (Inl ValueError_boom, 102) \<and>
   cause ValueError_boom = Some KeyError_k \<and>
   fst (dispatch (init None None) (test_request ''GET'' ''/boom/'') test_app start) =
     Inl (Exc ''ValueError'' True [''boom''] None None True) \<and>
   fst (dispatch (init None None) (test_request ''GET'' ''/boom/'') test_app start) \<noteq>
     Inl ValueError_boom \<and>
   \<not> filtered (init None None) (test_request ''GET'' ''/stop/'') \<and>
   test_app (test_request ''GET'' ''/stop/'') (clock start) = (Inl KeyboardInterrupt, 101) \<and>
   type_name KeyboardInterrupt = ''KeyboardInterrupt'' \<and>
   counters (dispatch_registry (init None None) (test_request ''GET'' ''/stop/'') test_app start)
     (''starlette_exceptions_total'',
      [(''method'', S ''GET''), (''path_template'', S ''/stop/''),
       (''exception_type'', S ''KeyboardInterrupt'')]) = None"
proof -
  let ?b = "test_request ''GET'' ''/boom/''"
  let ?s = "test_request ''GET'' ''/stop/''"
  have nfb: "\<not> filtered (init None None) ?b"
    and outb: "test_app ?b (clock start) = (Inl ValueError_boom, 102)"
    and exb: "is_Exception ValueError_boom"
    and nfs: "\<not> filtered (init None None) ?s"
    and outs: "test_app ?s (clock start) = (Inl KeyboardInterrupt, 101)"
    and exs: "\<not> is_Exception KeyboardInterrupt"
    by (simp_all add: test_facts ValueError_boom_def KeyboardInterrupt_def)
  have "fst (dispatch (init None None) ?b test_app start) = Inl (raise_from_None ValueError_boom)"
    by (rule dispatch_raise_Exception(1) [of "init None None" ?b test_app start _ 102, OF nfb outb exb])
  moreover have "counters (dispatch_registry (init None None) ?s test_app start) =
      (counters (registry start))
        (requests_child (init None None) ?s \<mapsto>
           counter_value (registry start) (requests_child (init None None) ?s) + 1)"
    by (rule dispatch_raise_other(4) [of "init None None" ?s test_app start _ 101, OF nfs outs exs])
  ultimately show ?thesis
    using nfb outb nfs outs
    by (simp add: test_facts ValueError_boom_def KeyboardInterrupt_def KeyError_k_def)
qed

section \<open>The prefix of the metric names\<close>

lemma filtered_init:
  "filtered (init f (Some p)) request = filtered (init f None) request"
  by (simp add: is_path_filtered_def init_def Let_def)

text \<open>
  C6. The constructor's prefix, empty when the argument is left out, is put in front of the
  name of each of the five metrics; kind, documentation and label names of each metric are
  those of the middleware built without a prefix, and so is \<open>filter_unhandled_paths\<close>. For
  any request, \<open>dispatch\<close> with the prefixed middleware returns what it returns with the
  unprefixed one and makes the same calls, with the same label names and label values,
  on the metrics whose names carry the prefix.
\<close>

theorem prefix_changes_metric_names_only:
  "requests (init f (Some p)) =
     (requests (init f None))\<lparr>metric_name := p @ ''starlette_requests_total''\<rparr> \<and>
   responses (init f (Some p)) =
     (responses (init f None))\<lparr>metric_name := p @ ''starlette_responses_total''\<rparr> \<and>
   requests_processing_time (init f (Some p)) =
     (requests_processing_time (init f None))
       \<lparr>metric_name := p @ ''starlette_requests_processing_time_seconds''\<rparr> \<and>
   exceptions (init f (Some p)) =
     (exceptions (init f None))\<lparr>metric_name := p @ ''starlette_exceptions_total''\<rparr> \<and>
   requests_in_progress (init f (Some p)) =
     (requests_in_progress (init f None))
       \<lparr>metric_name := p @ ''starlette_requests_in_progress''\<rparr> \<and>
   init f None = init f (Some '''') \<and>
   filter_unhandled_paths (init f (Some p)) = filter_unhandled_paths (init f None) \<and>
   fst (dispatch (init f (Some p)) request call_next w) =
     fst (dispatch (init f None) request call_next w) \<and>
   dispatch_calls (init f (Some p)) request call_next w =
     map (with_prefix p) (dispatch_calls (init f None) request call_next w)"
proof -
  have names: "requests (init f (Some p)) =
     (requests (init f None))\<lparr>metric_name := p @ ''starlette_requests_total''\<rparr> \<and>
   responses (init f (Some p)) =
     (responses (init f None))\<lparr>metric_name := p @ ''starlette_responses_total''\<rparr> \<and>
   requests_processing_time (init f (Some p)) =
     (requests_processing_time (init f None))
       \<lparr>metric_name := p @ ''starlette_requests_processing_time_seconds''\<rparr> \<and>
   exceptions (init f (Some p)) =
     (exceptions (init f None))\<lparr>metric_name := p @ ''starlette_exceptions_total''\<rparr> \<and>
   requests_in_progress (init f (Some p)) =
     (requests_in_progress (init f None))
       \<lparr>metric_name := p @ ''starlette_requests_in_progress''\<rparr> \<and>
   init f None = init f (Some '''') \<and>
   filter_unhandled_paths (init f (Some p)) = filter_unhandled_paths (init f None)"
    by (simp add: init_def Let_def)
  obtain r t1 where out: "call_next request (clock w) = (r, t1)"
    by (cases "call_next request (clock w)")
  have run: "fst (dispatch (init f (Some p)) request call_next w) =
     fst (dispatch (init f None) request call_next w) \<and>
   dispatch_calls (init f (Some p)) request call_next w =
     map (with_prefix p) (dispatch_calls (init f None) request call_next w)"
  proof (cases "filtered (init f None) request")
    case True
    then have "filtered (init f (Some p)) request"
      by (simp add: filtered_init)
    with True show ?thesis
      by (simp add: dispatch_bypass)
  next
    case nf0: False
    then have nfp: "\<not> filtered (init f (Some p)) request"
      by (simp add: filtered_init)
    show ?thesis
    proof (cases r)
      case (Inr response)
      with out have eq: "call_next request (clock w) = (Inr response, t1)" by simp
      show ?thesis
        by (simp add:
            dispatch_return(1,3) [of "init f (Some p)" request call_next w response t1, OF nfp eq]
            dispatch_return(1,3) [of "init f None" request call_next w response t1, OF nf0 eq]
            labels_def init_names)
          (simp add: init_def Let_def)
    next
      case (Inl e)
      with out have eq: "call_next request (clock w) = (Inl e, t1)" by simp
      show ?thesis
      proof (cases "is_Exception e")
        case True
        show ?thesis
          by (simp add:
              dispatch_raise_Exception(1,3) [of "init f (Some p)" request call_next w e t1, OF nfp eq True]
              dispatch_raise_Exception(1,3) [of "init f None" request call_next w e t1, OF nf0 eq True]
              labels_def init_names)
            (simp add: init_def Let_def)
      next
        case False
        show ?thesis
          by (simp add:
              dispatch_raise_other(1,3) [of "init f (Some p)" request call_next w e t1, OF nfp eq False]
              dispatch_raise_other(1,3) [of "init f None" request call_next w e t1, OF nf0 eq False]
              labels_def init_names)
            (simp add: init_def Let_def)
      qed
    qed
  qed
  from names run show ?thesis by blast
qed

theorem prefix_changes_metric_names_only_witness:
  "metric_name (requests (init None (Some ''test_''))) = ''test_starlette_requests_total'' \<and>
   metric_name (responses (init None (Some ''test_''))) = ''test_starlette_responses_total'' \<and>
   metric_name (requests_in_progress (init None (Some ''test_''))) =
     ''test_starlette_requests_in_progress'' \<and>
   labelnames (responses (init None (Some ''test_''))) =
     [''method'', ''path_template'', ''status_code''] \<and>
   hd (dispatch_calls (init None (Some ''test_'')) (test_request ''GET'' ''/foo/'') test_app start) =
     GaugeInc (''test_starlette_requests_in_progress'',
               [(''method'', S ''GET''), (''path_template'', S ''/foo/'')])"
proof -
  let ?r = "test_request ''GET'' ''/foo/''"
  let ?resp = "\<lparr>status_code = 200, headers = [(''content-type'', ''text/plain'')], body = ''Foo''\<rparr>"
  have nf: "\<not> filtered (init None None) ?r"
    and out: "test_app ?r (clock start) = (Inr ?resp, 103)"
    by (simp_all add: test_facts)
  have base: "labelnames (responses (init None None)) = [''method'', ''path_template'', ''status_code'']"
    by (simp add: init_def)
  from prefix_changes_metric_names_only
    [of None "''test_''", where request = ?r and call_next = test_app and w = start]
  have "requests (init None (Some ''test_'')) =
      (requests (init None None))\<lparr>metric_name := ''test_'' @ ''starlette_requests_total''\<rparr>"
    and "responses (init None (Some ''test_'')) =
      (responses (init None None))\<lparr>metric_name := ''test_'' @ ''starlette_responses_total''\<rparr>"
    and "requests_in_progress (init None (Some ''test_'')) =
      (requests_in_progress (init None None))
        \<lparr>metric_name := ''test_'' @ ''starlette_requests_in_progress''\<rparr>"
    and "dispatch_calls (init None (Some ''test_'')) ?r test_app start =
      map (with_prefix ''test_'') (dispatch_calls (init None None) ?r test_app start)"
    by blast+
  then show ?thesis
    by (simp add: dispatch_return(3) [of "init None None" ?r test_app start ?resp 103, OF nf out]
        base test_facts)
qed

section \<open>Unhandled paths without the filter\<close>

lemma dispatch_same_template:
  assumes m: "req_method request' = req_method request"
    and t: "fst (get_path_template request') = fst (get_path_template request)"
    and nf': "\<not> filtered self request'" and nf: "\<not> filtered self request"
    and k: "call_next request' = call_next request"
  shows "fst (dispatch self request' call_next w) = fst (dispatch self request call_next w) \<and>
         dispatch_registry self request' call_next w = dispatch_registry self request call_next w"
proof -
  obtain r t1 where out: "call_next request (clock w) = (r, t1)"
    by (cases "call_next request (clock w)")
  show ?thesis
  proof (cases r)
    case (Inr response)
    with out have eq: "call_next request (clock w) = (Inr response, t1)" by simp
    with k have eq': "call_next request' (clock w) = (Inr response, t1)" by simp
    note a = dispatch_return [of self request call_next w response t1, OF nf eq]
    note b = dispatch_return [of self request' call_next w response t1, OF nf' eq']
    have "dispatch_registry self request' call_next w = dispatch_registry self request call_next w"
      by (rule registry.equality) (simp_all add: a(4,5,6) b(4,5,6) m t)
    then show ?thesis by (simp add: a(1) b(1))
  next
    case (Inl e)
    with out have eq: "call_next request (clock w) = (Inl e, t1)" by simp
    with k have eq': "call_next request' (clock w) = (Inl e, t1)" by simp
    show ?thesis
    proof (cases "is_Exception e")
      case True
      note a = dispatch_raise_Exception [of self request call_next w e t1, OF nf eq True]
      note b = dispatch_raise_Exception [of self request' call_next w e t1, OF nf' eq' True]
      have "dispatch_registry self request' call_next w = dispatch_registry self request call_next w"
        by (rule registry.equality) (simp_all add: a(4,5,6) b(4,5,6) m t)
      then show ?thesis by (simp add: a(1) b(1))
    next
      case False
      note a = dispatch_raise_other [of self request call_next w e t1, OF nf eq False]
      note b = dispatch_raise_other [of self request' call_next w e t1, OF nf' eq' False]
      have "dispatch_registry self request' call_next w = dispatch_registry self request call_next w"
        by (rule registry.equality) (simp_all add: a(4,5,6) b(4,5,6) m t)
      then show ?thesis by (simp add: a(1) b(1))
    qed
  qed
qed

text \<open>
  C8. With \<open>filter_unhandled_paths\<close> unset, a request that no route matches fully resolves
  to its raw path, is not filtered out, and is recorded under that raw path: the requests
  counter of (method, raw path) goes up by exactly 1, and the result and the registry are
  exactly those of a request with the same method and the same downstream behaviour that
  a route with the raw path as its pattern matched.
\<close>

theorem unhandled_path_recorded_under_raw_path:
  assumes "\<not> filter_unhandled_paths self"
    and "\<forall>r \<in> set (app_routes request). fst (route_matches r (req_scope request)) \<noteq> FULL"
  shows "get_path_template request = (url_path request, False) \<and>
         \<not> filtered self request \<and>
         counter_value (dispatch_registry self request call_next w)
             (labels (requests self)
                [(''method'', S (req_method request)), (''path_template'', S (url_path request))]) =
           counter_value (registry w)
             (labels (requests self)
                [(''method'', S (req_method request)), (''path_template'', S (url_path request))]) + 1 \<and>
         (\<forall>request'.
            req_method request' = req_method request \<and>
            get_path_template request' = (url_path request, True) \<and>
            call_next request' = call_next request \<longrightarrow>
            fst (dispatch self request' call_next w) = fst (dispatch self request call_next w) \<and>
            dispatch_registry self request' call_next w =
              dispatch_registry self request call_next w)"
proof -
  from assms(2) have t: "get_path_template request = (url_path request, False)"
    by (simp add: get_path_template_def loop_no_match)
  from assms(1) have nf: "\<not> filtered self request"
    by (simp add: is_path_filtered_def)
  from requests_counter_unfiltered [OF nf, of call_next w]
  have c: "counter_value (dispatch_registry self request call_next w)
             (labels (requests self)
                [(''method'', S (req_method request)), (''path_template'', S (url_path request))]) =
           counter_value (registry w)
             (labels (requests self)
                [(''method'', S (req_method request)), (''path_template'', S (url_path request))]) + 1"
    by (simp add: t)
  have same: "fst (dispatch self request' call_next w) = fst (dispatch self request call_next w) \<and>
      dispatch_registry self request' call_next w = dispatch_registry self request call_next w"
    if "req_method request' = req_method request"
      and "get_path_template request' = (url_path request, True)"
      and "call_next request' = call_next request" for request'
  proof -
    from assms(1) have "\<not> filtered self request'"
      by (simp add: is_path_filtered_def)
    with that nf t show ?thesis
      by (simp add: dispatch_same_template [of request' request self call_next w])
  qed
  from t nf c same show ?thesis by blast
qed

theorem unhandled_path_recorded_under_raw_path_witness:
  "\<not> filter_unhandled_paths (init None None) \<and>
   get_path_template (test_request ''GET'' ''/any/unhandled/path'') =
     (''/any/unhandled/path'', False) \<and>
   counter_value (dispatch_registry (init None None) (test_request ''GET'' ''/any/unhandled/path'')
       test_app start)
     (''starlette_requests_total'',
      [(''method'', S ''GET''), (''path_template'', S ''/any/unhandled/path'')]) = 1 \<and>
   dispatch_registry (init None None)
     ((test_request ''GET'' ''/any/unhandled/path'')
        \<lparr>app_routes := [test_route ''/any/unhandled/path'' [''/any/unhandled/path'']]\<rparr>)
     test_app start =
   dispatch_registry (init None None) (test_request ''GET'' ''/any/unhandled/path'') test_app start"
proof -
  let ?r = "test_request ''GET'' ''/any/unhandled/path''"
  let ?r' = "?r\<lparr>app_routes := [test_route ''/any/unhandled/path'' [''/any/unhandled/path'']]\<rparr>"
  have nfl: "\<not> filter_unhandled_paths (init None None)"
    by (simp add: test_facts)
  have none: "\<forall>r \<in> set (app_routes ?r). fst (route_matches r (req_scope ?r)) \<noteq> FULL"
    by (simp add: test_request_def test_routes_def test_route_def)
  have r': "req_method ?r' = req_method ?r"
    "get_path_template ?r' = (url_path ?r, True)"
    "test_app ?r' = test_app ?r"
    by (simp_all add: get_path_template_def test_request_def test_route_def test_app_def fun_eq_iff)
  from unhandled_path_recorded_under_raw_path [OF nfl none, of test_app start]
  have "get_path_template ?r = (url_path ?r, False)"
    and "counter_value (dispatch_registry (init None None) ?r test_app start)
             (labels (requests (init None None))
                [(''method'', S (req_method ?r)), (''path_template'', S (url_path ?r))]) =
           counter_value (registry start)
             (labels (requests (init None None))
                [(''method'', S (req_method ?r)), (''path_template'', S (url_path ?r))]) + 1"
    and "dispatch_registry (init None None) ?r' test_app start =
         dispatch_registry (init None None) ?r test_app start"
    using r' by blast+
  with nfl show ?thesis
    by (simp add: test_facts)
qed

section \<open>What \<open>dispatch\<close> leaves alone\<close>

text \<open>
  C9, as the code has it. Whatever the request and the downstream handler: a response of
  the downstream handler is returned as it is; \<open>dispatch\<close> raises only when the downstream
  handler raised, and then the downstream handler's error, with the same class, arguments
  and \<^verbatim>\<open>__context__\<close>: untouched when the request is filtered out or the error's class does not
  derive from \<^verbatim>\<open>Exception\<close>, and otherwise with \<^verbatim>\<open>__cause__\<close> set to \<^verbatim>\<open>None\<close> and
  \<^verbatim>\<open>__suppress_context__\<close> set to \<^verbatim>\<open>True\<close>; the clock is where the downstream handler left
  it; the downstream handler is invoked exactly once, with the request as it came in; and
  every other call is a reading of the clock or a call on one of the middleware's own five
  metrics.
\<close>

theorem only_registry_side_effects:
  "(case (fst (call_next request (clock w)), fst (dispatch self request call_next w)) of
      (Inr response, Inr response') \<Rightarrow> response' = response
    | (Inl e, Inl e') \<Rightarrow>
        e' = (if is_Exception e \<and> \<not> filtered self request then raise_from_None e else e) \<and>
        type_name e' = type_name e \<and> is_Exception e' = is_Exception e \<and> args e' = args e \<and>
        exc_context e' = exc_context e
    | _ \<Rightarrow> False) \<and>
   clock (snd (dispatch self request call_next w)) = snd (call_next request (clock w)) \<and>
   filter is_CallNext (dispatch_calls self request call_next w) = [CallNext request] \<and>
   (\<forall>c \<in> set (dispatch_calls self request call_next w).
      c = PerfCounter \<or> c = CallNext request \<or>
      call_metric c \<in> Some ` metric_name ` own_metrics self)"
proof (cases "filtered self request")
  case True
  show ?thesis
    by (simp add: dispatch_bypass [OF True] True split: sum.splits)
next
  case nf: False
  obtain r t1 where out: "call_next request (clock w) = (r, t1)"
    by (cases "call_next request (clock w)")
  show ?thesis
  proof (cases r)
    case (Inr response)
    with out have eq: "call_next request (clock w) = (Inr response, t1)" by simp
    show ?thesis
      by (simp add: dispatch_return(1,2,3) [of self request call_next w response t1, OF nf eq]
          eq labels_def)
  next
    case (Inl e)
    with out have eq: "call_next request (clock w) = (Inl e, t1)" by simp
    have same: "type_name (raise_from_None e) = type_name e \<and>
        is_Exception (raise_from_None e) = is_Exception e \<and>
        args (raise_from_None e) = args e \<and>
        exc_context (raise_from_None e) = exc_context e"
      by (cases e) simp
    show ?thesis
    proof (cases "is_Exception e")
      case True
      show ?thesis
        using same True nf
        by (simp add: dispatch_raise_Exception(1,2,3) [of self request call_next w e t1, OF nf eq True]
            eq labels_def)
    next
      case False
      show ?thesis
        using False
        by (simp add: dispatch_raise_other(1,2,3) [of self request call_next w e t1, OF nf eq False]
            eq labels_def)
    qed
  qed
qed

theorem only_registry_side_effects_witness:
  "fst (dispatch (init None None) (test_request ''GET'' ''/foo/'') test_app start) =
     Inr \<lparr>status_code = 200, headers = [(''content-type'', ''text/plain'')], body = ''Foo''\<rparr> \<and>
   clock (snd (dispatch (init None None) (test_request ''GET'' ''/foo/'') test_app start)) = 103 \<and>
   filter is_CallNext
     (dispatch_calls (init None None) (test_request ''GET'' ''/foo/'') test_app start) =
     [CallNext (test_request ''GET'' ''/foo/'')] \<and>
   fst (dispatch (init None None) (test_request ''GET'' ''/bar/'') test_app start) =
     Inl (Exc ''ValueError'' True [''bar''] None None True) \<and>
   fst (dispatch (init (Some True) None) (test_request ''GET'' ''/blocked/'') test_app start) =
     Inl PermissionError_blocked"
proof -
  let ?r = "test_request ''GET'' ''/foo/''"
  let ?b = "test_request ''GET'' ''/bar/''"
  let ?k = "test_request ''GET'' ''/blocked/''"
  from only_registry_side_effects
    [where call_next = test_app and request = ?r and w = start and self = "init None None"]
  have a: "fst (dispatch (init None None) ?r test_app start) =
     Inr \<lparr>status_code = 200, headers = [(''content-type'', ''text/plain'')], body = ''Foo''\<rparr> \<and>
   clock (snd (dispatch (init None None) ?r test_app start)) = 103 \<and>
   filter is_CallNext (dispatch_calls (init None None) ?r test_app start) = [CallNext ?r]"
    by (simp add: test_facts split: sum.splits)
  from only_registry_side_effects
    [where call_next = test_app and request = ?b and w = start and self = "init None None"]
  have b: "fst (dispatch (init None None) ?b test_app start) =
     Inl (Exc ''ValueError'' True [''bar''] None None True)"
    by (simp add: test_facts ValueError_bar_def split: sum.splits)
  from only_registry_side_effects
    [where call_next = test_app and request = ?k and w = start and self = "init (Some True) None"]
  have c: "fst (dispatch (init (Some True) None) ?k test_app start) = Inl PermissionError_blocked"
    by (simp add: test_facts PermissionError_blocked_def split: sum.splits)
  from a b c show ?thesis by simp
qed

text \<open>
  C9, as the claim states it, fails: the interceptor changes something that the registry
  does not hold. The \<^verbatim>\<open>ValueError("bar")\<close> that the downstream handler raises has
  \<^verbatim>\<open>__suppress_context__\<close> unset; the error that \<open>dispatch\<close> raises has it set, so what
  comes out of \<open>dispatch\<close> is not what came out of the downstream handler.
\<close>

theorem raised_error_altered_counterexample:
  "\<not> filtered (init None None) (test_request ''GET'' ''/bar/'') \<and>
   fst (test_app (test_request ''GET'' ''/bar/'') (clock start)) = Inl ValueError_bar \<and>
   \<not> suppress_context ValueError_bar \<and>
   fst (dispatch (init None None) (test_request ''GET'' ''/bar/'') test_app start) =
     Inl (Exc ''ValueError'' True [''bar''] None None True) \<and>
   fst (dispatch (init None None) (test_request ''GET'' ''/bar/'') test_app start) \<noteq>
     fst (test_app (test_request ''GET'' ''/bar/'') (clock start))"
proof -
  let ?b = "test_request ''GET'' ''/bar/''"
  have nf: "\<not> filtered (init None None) ?b"
    and out: "test_app ?b (clock start) = (Inl ValueError_bar, 102)"
    and ex: "is_Exception ValueError_bar"
    by (simp_all add: test_facts ValueError_bar_def)
  have "fst (dispatch (init None None) ?b test_app start) = Inl (raise_from_None ValueError_bar)"
    by (rule dispatch_raise_Exception(1) [of "init None None" ?b test_app start _ 102, OF nf out ex])
  with nf out show ?thesis
    by (simp add: ValueError_bar_def)
qed

end
